theory Spec2Isabelle
  imports Complex_Main "HOL-Library.Log_Nat"
begin

section \<open>Python values used by extract_loudest_section_python.py\<close>

text \<open>
  The locator is modelled twice. In the first model samples are exact reals and no
  operation rounds; it carries the statements about control flow and index ranges and
  the statements made for exact arithmetic. The second model, further down, runs the same
  loop on binary64 values with every operation rounded, as Python does on a list of
  floats. Integers are Python's unbounded ints, and the one true division of two ints in
  the source is rounded to binary64. An exception that the source does not catch is the
  left injection of a result.
\<close>

datatype error = IndexError | ZeroDivisionError | OverflowError | OSError

text \<open>\<^verbatim>\<open>xs[i]\<close>: a negative index counts from the end, anything outside raises.\<close>

definition py_index :: "'a list \<Rightarrow> int \<Rightarrow> error + 'a" where
  "py_index xs i =
     (if 0 \<le> i \<and> i < int (length xs) then Inr (xs ! nat i)
      else if - int (length xs) \<le> i \<and> i < 0 then Inr (xs ! nat (int (length xs) + i))
      else Inl IndexError)"

text \<open>\<^verbatim>\<open>xs[lo:hi]\<close>: both bounds are clamped into the sequence, never raising.\<close>

definition slice_bound :: "nat \<Rightarrow> int \<Rightarrow> nat" where
  "slice_bound n k = (if k < 0 then nat (max 0 (int n + k)) else min n (nat k))"

definition py_slice :: "'a list \<Rightarrow> int \<Rightarrow> int \<Rightarrow> 'a list" where
  "py_slice xs lo hi =
     (let l = slice_bound (length xs) lo; h = slice_bound (length xs) hi
      in take (h - l) (drop l xs))"

text \<open>
  \<^verbatim>\<open>np.sum(np.square(xs))\<close> taken exactly, without rounding; the sum of no element
  is 0. The rounded sum is \<open>np_sum\<close> over \<open>float_square\<close>, further down.
\<close>

definition sum_squares :: "real list \<Rightarrow> real" where
  "sum_squares xs = sum_list (map (\<lambda>x. x * x) xs)"

section \<open>The segment locator\<close>

text \<open>
  In this section the samples are reals and the running sum is updated exactly. The
  body of the \<^verbatim>\<open>for i in range(1, input_size - desired_samples + 1)\<close> loop of
  \<^verbatim>\<open>trim_to_loudest_segment\<close>, over the remaining values of \<^verbatim>\<open>i\<close>. The state is
  \<^verbatim>\<open>(current_volume_sum, loudest_volume, loudest_start_index)\<close>.
\<close>

fun segment_loop ::
  "real list \<Rightarrow> int \<Rightarrow> int list \<Rightarrow> real \<times> real \<times> int \<Rightarrow> error + real \<times> real \<times> int" where
  "segment_loop input_samples desired_samples [] st = Inr st"
| "segment_loop input_samples desired_samples (i # rest)
     (current_volume_sum, loudest_volume, loudest_start_index) =
     (case py_index input_samples (i - 1) of
        Inl e \<Rightarrow> Inl e
      | Inr trailing_value \<Rightarrow>
         (case py_index input_samples (i + desired_samples - 1) of
            Inl e \<Rightarrow> Inl e
          | Inr leading_value \<Rightarrow>
             (let s = current_volume_sum - trailing_value * trailing_value
                        + leading_value * leading_value
              in if s > loudest_volume
                 then segment_loop input_samples desired_samples rest (s, s, i)
                 else segment_loop input_samples desired_samples rest
                        (s, loudest_volume, loudest_start_index))))"

definition trim_to_loudest_segment :: "real list \<Rightarrow> int \<Rightarrow> error + int \<times> int" where
  "trim_to_loudest_segment input_samples desired_samples =
     (let input_size = int (length input_samples)
      in if desired_samples \<ge> input_size then Inr (0, input_size)
         else
           (let current_volume_sum = sum_squares (py_slice input_samples 0 desired_samples)
            in case segment_loop input_samples desired_samples
                      [1 .. input_size - desired_samples]
                      (current_volume_sum, current_volume_sum, 0) of
                 Inl e \<Rightarrow> Inl e
               | Inr (_, _, loudest_start_index) \<Rightarrow>
                   Inr (loudest_start_index, loudest_start_index + desired_samples)))"

text \<open>The same loop as it is written in \<^verbatim>\<open>trim_to_loudest_segment_indices\<close>.\<close>

fun indices_loop ::
  "real list \<Rightarrow> int \<Rightarrow> int list \<Rightarrow> real \<times> real \<times> int \<Rightarrow> error + real \<times> real \<times> int" where
  "indices_loop input_samples desired_samples [] st = Inr st"
| "indices_loop input_samples desired_samples (i # rest)
     (current_volume_sum, loudest_volume, loudest_start_index) =
     (case py_index input_samples (i - 1) of
        Inl e \<Rightarrow> Inl e
      | Inr trailing_value \<Rightarrow>
         (case py_index input_samples (i + desired_samples - 1) of
            Inl e \<Rightarrow> Inl e
          | Inr leading_value \<Rightarrow>
             (let s = current_volume_sum - trailing_value * trailing_value
                        + leading_value * leading_value
              in if s > loudest_volume
                 then indices_loop input_samples desired_samples rest (s, s, i)
                 else indices_loop input_samples desired_samples rest
                        (s, loudest_volume, loudest_start_index))))"

definition trim_to_loudest_segment_indices :: "real list \<Rightarrow> int \<Rightarrow> error + int \<times> int" where
  "trim_to_loudest_segment_indices input_samples desired_samples =
     (let input_size = int (length input_samples)
      in if desired_samples \<ge> input_size then Inr (0, input_size)
         else
           (let current_volume_sum = sum_squares (py_slice input_samples 0 desired_samples)
            in case indices_loop input_samples desired_samples
                      [1 .. input_size - desired_samples]
                      (current_volume_sum, current_volume_sum, 0) of
                 Inl e \<Rightarrow> Inl e
               | Inr (_, _, loudest_start_index) \<Rightarrow>
                   Inr (loudest_start_index, loudest_start_index + desired_samples)))"

text \<open>
  The energy of the window of \<open>desired_samples\<close> samples that starts at index \<open>j\<close>:
  the sum of squares of \<^verbatim>\<open>input_samples[j : j + desired_samples]\<close>.
\<close>

definition window_energy :: "real list \<Rightarrow> int \<Rightarrow> int \<Rightarrow> real" where
  "window_energy input_samples desired_samples j =
     sum_squares (py_slice input_samples j (j + desired_samples))"

text \<open>
  The reference the incremental loop is compared with, written from the specification:
  scan the start indices from left to right, recompute the sum of squares of every window
  from scratch, and move the best index on strict improvement only.
\<close>

fun naive_scan :: "real list \<Rightarrow> int \<Rightarrow> int list \<Rightarrow> real \<times> int \<Rightarrow> real \<times> int" where
  "naive_scan xs d [] st = st"
| "naive_scan xs d (i # rest) (best, best_index) =
     (let v = sum_squares (py_slice xs i (i + d))
      in if v > best then naive_scan xs d rest (v, i)
         else naive_scan xs d rest (best, best_index))"

definition naive_loudest_segment :: "real list \<Rightarrow> int \<Rightarrow> int \<times> int" where
  "naive_loudest_segment xs d =
     (let n = int (length xs)
      in if d \<ge> n then (0, n)
         else (let (best, best_index) =
                     naive_scan xs d [1 .. n - d] (sum_squares (py_slice xs 0 d), 0)
               in (best_index, best_index + d)))"

section \<open>True division of ints\<close>

text \<open>
  \<^verbatim>\<open>a / b\<close> on two ints is the binary64 number nearest to the exact quotient (ties to
  the even mantissa), \<^verbatim>\<open>OverflowError\<close> when that is beyond the largest double and
  \<^verbatim>\<open>ZeroDivisionError\<close> when \<open>b = 0\<close>. A double is kept as the real number it denotes.
\<close>

text \<open>The integer nearest to \<open>p / q\<close> for \<open>0 \<le> p\<close> and \<open>0 < q\<close>, ties to even.\<close>

definition round_half_even :: "int \<Rightarrow> int \<Rightarrow> int" where
  "round_half_even p q =
     (if 2 * (p mod q) < q then p div q
      else if q < 2 * (p mod q) then p div q + 1
      else if even (p div q) then p div q
      else p div q + 1)"

text \<open>The exponent \<open>e\<close> with \<open>2\<^sup>e \<le> a / b < 2\<^sup>e\<^sup>+\<^sup>1\<close>, for \<open>0 < a\<close> and \<open>0 < b\<close>.\<close>

definition floor_log2 :: "int \<Rightarrow> int \<Rightarrow> int" where
  "floor_log2 a b =
     (let d = bitlen a - bitlen b
      in if (if 0 \<le> d then b * 2 ^ nat d \<le> a else b \<le> a * 2 ^ nat (- d)) then d
         else d - 1)"

text \<open>
  The double nearest to \<open>a / b\<close> for \<open>0 < a\<close> and \<open>0 < b\<close>: a mantissa of 53 bits, or
  fewer at the bottom of the range, where the unit in the last place stays \<open>2\<^sup>-\<^sup>1\<^sup>0\<^sup>7\<^sup>4\<close>.
\<close>

definition binary64 :: "int \<Rightarrow> int \<Rightarrow> error + real" where
  "binary64 a b =
     (let shift = min (52 - floor_log2 a b) 1074
      in if 0 \<le> shift
         then Inr (real_of_int (round_half_even (a * 2 ^ nat shift) b) / 2 ^ nat shift)
         else
           (let m = round_half_even a (b * 2 ^ nat (- shift))
            in if 2 ^ 1024 \<le> m * 2 ^ nat (- shift) then Inl OverflowError
               else Inr (real_of_int (m * 2 ^ nat (- shift)))))"

definition py_truediv :: "int \<Rightarrow> int \<Rightarrow> error + real" where
  "py_truediv a b =
     (if b = 0 then Inl ZeroDivisionError
      else if a = 0 then Inr 0
      else (case binary64 \<bar>a\<bar> \<bar>b\<bar> of
              Inl e \<Rightarrow> Inl e
            | Inr v \<Rightarrow> Inr (if (a < 0) = (b < 0) then v else - v)))"

text \<open>\<^verbatim>\<open>int(x)\<close> on a float: truncation towards zero.\<close>

definition py_int :: "real \<Rightarrow> int" where
  "py_int x = (if 0 \<le> x then \<lfloor>x\<rfloor> else \<lceil>x\<rceil>)"

text \<open>\<^verbatim>\<open>int((desired_length_ms * sample_rate) / 1000)\<close>, line 122.\<close>

definition desired_samples_of :: "int \<Rightarrow> int \<Rightarrow> error + int" where
  "desired_samples_of desired_length_ms sample_rate =
     (case py_truediv (desired_length_ms * sample_rate) 1000 of
        Inl e \<Rightarrow> Inl e
      | Inr q \<Rightarrow> Inr (py_int q))"

section \<open>Trimming one file\<close>

text \<open>
  A decoded file is a list of frames, each the list of its channel values, with the
  sample rate (\<^verbatim>\<open>sf.read(..., always_2d=True)\<close>, so a frame has at least one channel).
  The two collaborators of \<^verbatim>\<open>trim_file\<close> are parameters: \<open>sf_read\<close> gives the decoded
  file or \<open>None\<close> when it raises, \<open>sf_write_ok\<close> tells whether \<^verbatim>\<open>sf.write\<close> returns
  without raising. What \<^verbatim>\<open>trim_file\<close> does to the outside is the list of its events, in
  order: a call of \<^verbatim>\<open>sf.write\<close> with its arguments, or a printed line.
\<close>

datatype message =
    FailedDecode string
  | Skipped string "real option"
  | SavedTo string
  | FailedWrite string
  | Usage

datatype event =
    Print message
  | Write string "real list list" int
  | MakeDirs string

text \<open>\<^verbatim>\<open>wav_samples.mean(axis=1)\<close> on one frame.\<close>

definition frame_mean :: "real list \<Rightarrow> real" where
  "frame_mean frame = sum_list frame / real (length frame)"

text \<open>
  \<^verbatim>\<open>np.mean(np.abs(xs))\<close>; the mean of no element is NaN, which is \<open>None\<close> here,
  and a comparison with NaN is false.
\<close>

definition mean_abs :: "real list \<Rightarrow> real option" where
  "mean_abs xs =
     (if xs = [] then None else Some (sum_list (map abs xs) / real (length xs)))"

definition float_less :: "real option \<Rightarrow> real \<Rightarrow> bool" where
  "float_less x y = (case x of None \<Rightarrow> False | Some v \<Rightarrow> v < y)"

definition trim_file ::
  "(string \<Rightarrow> (real list list \<times> int) option) \<Rightarrow> (string \<Rightarrow> real list list \<Rightarrow> int \<Rightarrow> bool) \<Rightarrow>
   string \<Rightarrow> string \<Rightarrow> int \<Rightarrow> real \<Rightarrow> error + event list" where
  "trim_file sf_read sf_write_ok input_filename output_filename desired_length_ms min_volume =
     (case sf_read input_filename of
        None \<Rightarrow> Inr [Print (FailedDecode input_filename)]
      | Some (wav_samples, sample_rate) \<Rightarrow>
         (let mono_samples = map frame_mean wav_samples
          in case desired_samples_of desired_length_ms sample_rate of
               Inl e \<Rightarrow> Inl e
             | Inr desired_samples \<Rightarrow>
                (case trim_to_loudest_segment_indices mono_samples desired_samples of
                   Inl e \<Rightarrow> Inl e
                 | Inr (start_idx, end_idx) \<Rightarrow>
                    (let trimmed_mono_samples = py_slice mono_samples start_idx end_idx;
                         average_volume = mean_abs trimmed_mono_samples
                     in if float_less average_volume min_volume
                        then Inr [Print (Skipped input_filename average_volume)]
                        else
                          (let trimmed_samples = py_slice wav_samples start_idx end_idx
                           in if sf_write_ok output_filename trimmed_samples sample_rate
                              then Inr [Write output_filename trimmed_samples sample_rate,
                                        Print (SavedTo output_filename)]
                              else Inr [Write output_filename trimmed_samples sample_rate,
                                        Print (FailedWrite output_filename)])))))"

section \<open>The command line\<close>

text \<open>
  What \<^verbatim>\<open>main\<close> takes from the standard library and from soundfile. \<open>makedirs_ok\<close>
  tells whether \<^verbatim>\<open>os.makedirs(d, exist_ok=True)\<close> returns without raising.
\<close>

record env =
  glob_glob :: "string \<Rightarrow> string list"
  path_split :: "string \<Rightarrow> string \<times> string"
  path_join :: "string \<Rightarrow> string \<Rightarrow> string"
  path_dirname :: "string \<Rightarrow> string"
  makedirs_ok :: "string \<Rightarrow> bool"
  sf_read :: "string \<Rightarrow> (real list list \<times> int) option"
  sf_write_ok :: "string \<Rightarrow> real list list \<Rightarrow> int \<Rightarrow> bool"

text \<open>\<^verbatim>\<open>for output_dir in output_dirs: os.makedirs(output_dir, exist_ok=True)\<close>\<close>

fun make_output_dirs :: "env \<Rightarrow> string list \<Rightarrow> error + event list" where
  "make_output_dirs E [] = Inr []"
| "make_output_dirs E (output_dir # rest) =
     (if makedirs_ok E output_dir
      then (case make_output_dirs E rest of
              Inl e \<Rightarrow> Inl e
            | Inr evs \<Rightarrow> Inr (MakeDirs output_dir # evs))
      else Inl OSError)"

text \<open>
  \<^verbatim>\<open>for input_filename, output_filename in zip(input_filenames, output_filenames)\<close>,
  with \<^verbatim>\<open>desired_length_ms = 1000\<close> and \<^verbatim>\<open>min_volume = 0.004\<close>.
\<close>

fun trim_files :: "env \<Rightarrow> (string \<times> string) list \<Rightarrow> error + event list" where
  "trim_files E [] = Inr []"
| "trim_files E ((input_filename, output_filename) # rest) =
     (case trim_file (sf_read E) (sf_write_ok E) input_filename output_filename 1000 (4 / 1000) of
        Inl e \<Rightarrow> Inl e
      | Inr evs \<Rightarrow>
         (case trim_files E rest of
            Inl e \<Rightarrow> Inl e
          | Inr evs' \<Rightarrow> Inr (evs @ evs')))"

text \<open>
  \<^verbatim>\<open>main\<close> over \<^verbatim>\<open>sys.argv\<close>: its events and the value it returns, or the exception
  that leaves it. \<^verbatim>\<open>output_dirs\<close> is a set; its elements are taken here in the order of
  their first insertion.
\<close>

definition main :: "env \<Rightarrow> string list \<Rightarrow> error + event list \<times> int" where
  "main E argv =
     (if length argv < 3 then Inr ([Print Usage], - 1)
      else
        (let input_glob = argv ! 1;
             input_filenames = glob_glob E input_glob;
             output_root = argv ! 2;
             output_filenames =
               map (\<lambda>input_filename.
                      path_join E output_root (snd (path_split E input_filename)))
                   input_filenames;
             output_dirs = remdups (map (path_dirname E) output_filenames)
         in case make_output_dirs E output_dirs of
              Inl e \<Rightarrow> Inl e
            | Inr evs \<Rightarrow>
               (case trim_files E (zip input_filenames output_filenames) of
                  Inl e \<Rightarrow> Inl e
                | Inr evs' \<Rightarrow> Inr (evs @ evs', 0))))"

text \<open>
  The last two lines of the file, \<^verbatim>\<open>if __name__ == "__main__": main()\<close>: the value of
  \<^verbatim>\<open>main()\<close> is dropped. The interpreter ends with status 0 when the script runs to its
  end and with status 1 when an exception leaves it.
\<close>

definition exit_status :: "env \<Rightarrow> string list \<Rightarrow> int" where
  "exit_status E argv = (case main E argv of Inl e \<Rightarrow> 1 | Inr (evs, returned) \<Rightarrow> 0)"

section \<open>The segment locator on binary64 samples\<close>

text \<open>
  The locator as Python runs it on a list of floats (or a float64 array): every square,
  sum and difference is rounded to binary64. A double is a rational, an infinity or NaN;
  the sign of zero, which no comparison sees, is not kept.
\<close>

datatype float64 = Finite rat | PosInf | NegInf | NaN

text \<open>The double nearest to a rational (ties to the even mantissa), or an infinity.\<close>

definition nearest_double :: "rat \<Rightarrow> float64" where
  "nearest_double q =
     (let (a, b) = quotient_of q
      in if a = 0 then Finite 0
         else
           (let shift = min (52 - floor_log2 \<bar>a\<bar> b) 1074;
                v = (if 0 \<le> shift
                     then rat_of_int (round_half_even (\<bar>a\<bar> * 2 ^ nat shift) b) / 2 ^ nat shift
                     else rat_of_int
                            (round_half_even \<bar>a\<bar> (b * 2 ^ nat (- shift)) * 2 ^ nat (- shift)))
            in if 2 ^ 1024 \<le> v then (if 0 < a then PosInf else NegInf)
               else Finite (if 0 < a then v else - v)))"

text \<open>\<^verbatim>\<open>x * x\<close> and \<^verbatim>\<open>np.square\<close> on one value.\<close>

fun float_square :: "float64 \<Rightarrow> float64" where
  "float_square (Finite x) = nearest_double (x * x)"
| "float_square PosInf = PosInf"
| "float_square NegInf = PosInf"
| "float_square NaN = NaN"

fun float_add :: "float64 \<Rightarrow> float64 \<Rightarrow> float64" where
  "float_add NaN y = NaN"
| "float_add x NaN = NaN"
| "float_add (Finite x) (Finite y) = nearest_double (x + y)"
| "float_add PosInf NegInf = NaN"
| "float_add NegInf PosInf = NaN"
| "float_add PosInf y = PosInf"
| "float_add NegInf y = NegInf"
| "float_add (Finite x) y = y"

fun float_neg :: "float64 \<Rightarrow> float64" where
  "float_neg (Finite x) = Finite (- x)"
| "float_neg PosInf = NegInf"
| "float_neg NegInf = PosInf"
| "float_neg NaN = NaN"

definition float_sub :: "float64 \<Rightarrow> float64 \<Rightarrow> float64" where
  "float_sub x y = float_add x (float_neg y)"

text \<open>\<^verbatim>\<open>x > y\<close>; false whenever one side is NaN.\<close>

fun float_gt :: "float64 \<Rightarrow> float64 \<Rightarrow> bool" where
  "float_gt NaN y = False"
| "float_gt x NaN = False"
| "float_gt (Finite x) (Finite y) = (y < x)"
| "float_gt PosInf PosInf = False"
| "float_gt PosInf y = True"
| "float_gt x PosInf = False"
| "float_gt NegInf y = False"
| "float_gt (Finite x) NegInf = True"

text \<open>
  \<^verbatim>\<open>np.sum\<close> on a contiguous float64 array: the first element plus numpy's pairwise sum
  of the others. The pairwise sum adds fewer than eight elements from left to right, up
  to 128 elements in eight interleaved accumulators, and more by halves.
\<close>

primrec blocks8 :: "nat \<Rightarrow> 'a list \<Rightarrow> 'a list list" where
  "blocks8 0 xs = []"
| "blocks8 (Suc k) xs = take 8 xs # blocks8 k (drop 8 xs)"

fun add_rows :: "float64 list \<Rightarrow> float64 list list \<Rightarrow> float64 list" where
  "add_rows r [] = r"
| "add_rows r (row # rows) = add_rows (map2 float_add r row) rows"

function pairwise_sum :: "float64 list \<Rightarrow> float64" where
  "pairwise_sum xs =
     (let n = length xs
      in if n < 8 then foldl float_add (Finite 0) xs
         else if n \<le> 128 then
           (let full = n - n mod 8;
                r = add_rows (take 8 xs) (blocks8 (full div 8 - 1) (drop 8 xs));
                res = float_add
                        (float_add (float_add (r ! 0) (r ! 1)) (float_add (r ! 2) (r ! 3)))
                        (float_add (float_add (r ! 4) (r ! 5)) (float_add (r ! 6) (r ! 7)))
            in foldl float_add res (drop full xs))
         else
           (let n2 = n div 2 - (n div 2) mod 8
            in float_add (pairwise_sum (take n2 xs)) (pairwise_sum (drop n2 xs))))"
  by pat_completeness auto
termination
  by (relation "measure length") auto

definition np_sum :: "float64 list \<Rightarrow> float64" where
  "np_sum xs = (case xs of [] \<Rightarrow> Finite 0 | x # rest \<Rightarrow> float_add x (pairwise_sum rest))"

text \<open>The loop of \<^verbatim>\<open>trim_to_loudest_segment_indices\<close>, lines 86 to 94, on doubles.\<close>

fun indices_loop_float64 ::
  "float64 list \<Rightarrow> int \<Rightarrow> int list \<Rightarrow> float64 \<times> float64 \<times> int \<Rightarrow>
   error + float64 \<times> float64 \<times> int" where
  "indices_loop_float64 input_samples desired_samples [] st = Inr st"
| "indices_loop_float64 input_samples desired_samples (i # rest)
     (current_volume_sum, loudest_volume, loudest_start_index) =
     (case py_index input_samples (i - 1) of
        Inl e \<Rightarrow> Inl e
      | Inr trailing_value \<Rightarrow>
         (case py_index input_samples (i + desired_samples - 1) of
            Inl e \<Rightarrow> Inl e
          | Inr leading_value \<Rightarrow>
             (let s = float_add (float_sub current_volume_sum (float_square trailing_value))
                        (float_square leading_value)
              in if float_gt s loudest_volume
                 then indices_loop_float64 input_samples desired_samples rest (s, s, i)
                 else indices_loop_float64 input_samples desired_samples rest
                        (s, loudest_volume, loudest_start_index))))"

definition trim_to_loudest_segment_indices_float64 ::
  "float64 list \<Rightarrow> int \<Rightarrow> error + int \<times> int" where
  "trim_to_loudest_segment_indices_float64 input_samples desired_samples =
     (let input_size = int (length input_samples)
      in if desired_samples \<ge> input_size then Inr (0, input_size)
         else
           (let current_volume_sum =
                  np_sum (map float_square (py_slice input_samples 0 desired_samples))
            in case indices_loop_float64 input_samples desired_samples
                      [1 .. input_size - desired_samples]
                      (current_volume_sum, current_volume_sum, 0) of
                 Inl e \<Rightarrow> Inl e
               | Inr (_, _, loudest_start_index) \<Rightarrow>
                   Inr (loudest_start_index, loudest_start_index + desired_samples)))"

section \<open>Properties of the segment locator\<close>

subsection \<open>The sliding window\<close>

lemma py_slice_window:
  "0 \<le> j \<Longrightarrow> 0 \<le> d \<Longrightarrow> j + d \<le> int (length xs) \<Longrightarrow>
     py_slice xs j (j + d) = take (nat d) (drop (nat j) xs)"
  by (auto simp add: py_slice_def slice_bound_def Let_def min_def nat_add_distrib)

lemma sum_squares_slide:
  assumes "Suc k + d \<le> length xs"
  shows "sum_squares (take d (drop (Suc k) xs))
           = sum_squares (take d (drop k xs)) - xs ! k * xs ! k + xs ! (k + d) * xs ! (k + d)"
proof -
  have k: "k < length xs" and d: "d < length (drop k xs)" using assms by auto
  have "take (Suc d) (drop k xs) = xs ! k # take d (drop (Suc k) xs)"
    using k by (simp add: Cons_nth_drop_Suc [symmetric])
  moreover have "take (Suc d) (drop k xs) = take d (drop k xs) @ [xs ! (k + d)]"
    using d k by (simp add: take_Suc_conv_app_nth)
  ultimately have "sum_squares (xs ! k # take d (drop (Suc k) xs))
                     = sum_squares (take d (drop k xs) @ [xs ! (k + d)])"
    by simp
  then show ?thesis by (simp add: sum_squares_def)
qed

lemma window_energy_slide:
  assumes "1 \<le> i" "0 \<le> d" "i + d \<le> int (length xs)"
  shows "py_index xs (i - 1) = Inr (xs ! nat (i - 1))"
    and "py_index xs (i + d - 1) = Inr (xs ! nat (i + d - 1))"
    and "window_energy xs d i
           = window_energy xs d (i - 1) - xs ! nat (i - 1) * xs ! nat (i - 1)
               + xs ! nat (i + d - 1) * xs ! nat (i + d - 1)"
proof -
  show "py_index xs (i - 1) = Inr (xs ! nat (i - 1))"
    using assms by (simp add: py_index_def)
  show "py_index xs (i + d - 1) = Inr (xs ! nat (i + d - 1))"
    using assms by (simp add: py_index_def)
  define k where "k = nat (i - 1)"
  define m where "m = nat d"
  have k: "i = int (Suc k)" using assms(1) by (simp add: k_def)
  have m: "d = int m" using assms(2) by (simp add: m_def)
  have len: "Suc k + m \<le> length xs" using assms(3) k m by linarith
  have "window_energy xs d i = sum_squares (take m (drop (Suc k) xs))"
    using py_slice_window [of i d xs] assms k m by (simp add: window_energy_def del: of_nat_Suc)
  moreover have "window_energy xs d (i - 1) = sum_squares (take m (drop k xs))"
    using py_slice_window [of "i - 1" d xs] assms k m by (simp add: window_energy_def)
  moreover have "nat (i - 1) = k" "nat (i + d - 1) = k + m" using k m by auto
  ultimately show "window_energy xs d i
           = window_energy xs d (i - 1) - xs ! nat (i - 1) * xs ! nat (i - 1)
               + xs ! nat (i + d - 1) * xs ! nat (i + d - 1)"
    using sum_squares_slide [OF len] by simp
qed

lemma indices_loop_invariant:
  assumes "0 \<le> d" "1 \<le> a" "b + d \<le> int (length xs)"
    and "cur = window_energy xs d (a - 1)"
    and "L = window_energy xs d idx" "0 \<le> idx" "idx < a"
    and "\<forall>j. 0 \<le> j \<and> j < a \<longrightarrow> window_energy xs d j \<le> L"
    and "\<forall>j. 0 \<le> j \<and> j < idx \<longrightarrow> window_energy xs d j < L"
  shows "\<exists>c L' idx'. indices_loop xs d [a .. b] (cur, L, idx) = Inr (c, L', idx')
           \<and> L' = window_energy xs d idx' \<and> 0 \<le> idx' \<and> idx' \<le> max (a - 1) b
           \<and> (\<forall>j. 0 \<le> j \<and> j \<le> max (a - 1) b \<longrightarrow> window_energy xs d j \<le> L')
           \<and> (\<forall>j. 0 \<le> j \<and> j < idx' \<longrightarrow> window_energy xs d j < L')"
  using assms
proof (induction "nat (b + 1 - a)" arbitrary: a cur L idx)
  case 0
  then have "[a .. b] = []" by simp
  moreover have "max (a - 1) b = a - 1" using 0 by simp
  ultimately show ?case using 0 by auto
next
  case (Suc n)
  then have ab: "a \<le> b" by linarith
  then have unfold: "[a .. b] = a # [a + 1 .. b]" by (simp add: upto_rec1)
  have mx: "max (a - 1) b = b" "max (a + 1 - 1) b = b" using ab by auto
  have ad: "a + d \<le> int (length xs)" using ab Suc.prems by linarith
  note step = window_energy_slide [OF \<open>1 \<le> a\<close> \<open>0 \<le> d\<close> ad]
  define s where "s = window_energy xs d a"
  have s: "cur - xs ! nat (a - 1) * xs ! nat (a - 1)
             + xs ! nat (a + d - 1) * xs ! nat (a + d - 1) = s"
    using step(3) Suc.prems(4) by (simp add: s_def)
  have n: "n = nat (b + 1 - (a + 1))" using Suc.hyps(2) by linarith
  show ?case
  proof (cases "s > L")
    case True
    have "\<exists>c L' idx'. indices_loop xs d [a + 1 .. b] (s, s, a) = Inr (c, L', idx')
           \<and> L' = window_energy xs d idx' \<and> 0 \<le> idx' \<and> idx' \<le> max (a + 1 - 1) b
           \<and> (\<forall>j. 0 \<le> j \<and> j \<le> max (a + 1 - 1) b \<longrightarrow> window_energy xs d j \<le> L')
           \<and> (\<forall>j. 0 \<le> j \<and> j < idx' \<longrightarrow> window_energy xs d j < L')"
    proof (rule Suc.hyps(1) [OF n])
      show "s = window_energy xs d (a + 1 - 1)" by (simp add: s_def)
      show "s = window_energy xs d a" by (simp add: s_def)
      show "\<forall>j. 0 \<le> j \<and> j < a + 1 \<longrightarrow> window_energy xs d j \<le> s"
      proof (intro allI impI)
        fix j assume j: "0 \<le> j \<and> j < a + 1"
        show "window_energy xs d j \<le> s"
        proof (cases "j = a")
          case True then show ?thesis by (simp add: s_def)
        next
          case False
          then have "j < a" using j by simp
          then have "window_energy xs d j \<le> L" using Suc.prems(8) j by simp
          then show ?thesis using True by simp
        qed
      qed
      show "\<forall>j. 0 \<le> j \<and> j < a \<longrightarrow> window_energy xs d j < s"
        using Suc.prems(8) True by force
    qed (use Suc.prems in auto)
    then show ?thesis
      using True s step(1,2) ab by (simp add: unfold mx max_def)
  next
    case False
    have "\<exists>c L' idx'. indices_loop xs d [a + 1 .. b] (s, L, idx) = Inr (c, L', idx')
           \<and> L' = window_energy xs d idx' \<and> 0 \<le> idx' \<and> idx' \<le> max (a + 1 - 1) b
           \<and> (\<forall>j. 0 \<le> j \<and> j \<le> max (a + 1 - 1) b \<longrightarrow> window_energy xs d j \<le> L')
           \<and> (\<forall>j. 0 \<le> j \<and> j < idx' \<longrightarrow> window_energy xs d j < L')"
    proof (rule Suc.hyps(1) [OF n])
      show "s = window_energy xs d (a + 1 - 1)" by (simp add: s_def)
      show "\<forall>j. 0 \<le> j \<and> j < a + 1 \<longrightarrow> window_energy xs d j \<le> L"
      proof (intro allI impI)
        fix j assume j: "0 \<le> j \<and> j < a + 1"
        show "window_energy xs d j \<le> L"
        proof (cases "j = a")
          case True then show ?thesis using False by (simp add: s_def)
        next
          case False
          then have "j < a" using j by simp
          then show ?thesis using Suc.prems(8) j by simp
        qed
      qed
    qed (use Suc.prems in auto)
    then show ?thesis
      using False s step(1,2) ab by (simp add: unfold mx max_def)
  qed
qed

lemma indices_loop_naive:
  assumes "0 \<le> d" "1 \<le> a" "b + d \<le> int (length xs)"
    and "cur = window_energy xs d (a - 1)"
  shows "\<exists>c. indices_loop xs d [a .. b] (cur, L, idx)
               = Inr (c, naive_scan xs d [a .. b] (L, idx))"
  using assms
proof (induction "nat (b + 1 - a)" arbitrary: a cur L idx)
  case 0
  then have "[a .. b] = []" by simp
  then show ?case by simp
next
  case (Suc n)
  then have ab: "a \<le> b" by linarith
  then have unfold: "[a .. b] = a # [a + 1 .. b]" by (simp add: upto_rec1)
  have ad: "a + d \<le> int (length xs)" using ab Suc.prems by linarith
  note step = window_energy_slide [OF \<open>1 \<le> a\<close> \<open>0 \<le> d\<close> ad]
  define s where "s = window_energy xs d a"
  have s: "cur - xs ! nat (a - 1) * xs ! nat (a - 1)
             + xs ! nat (a + d - 1) * xs ! nat (a + d - 1) = s"
    using step(3) Suc.prems(4) by (simp add: s_def)
  have s': "sum_squares (py_slice xs a (a + d)) = s"
    by (simp add: s_def window_energy_def)
  have n: "n = nat (b + 1 - (a + 1))" using Suc.hyps(2) by linarith
  have next_cur: "s = window_energy xs d (a + 1 - 1)" by (simp add: s_def)
  have IH: "\<exists>c. indices_loop xs d [a + 1 .. b] (s, L', idx')
                  = Inr (c, naive_scan xs d [a + 1 .. b] (L', idx'))" for L' idx'
    using Suc.hyps(1) [OF n \<open>0 \<le> d\<close> _ \<open>b + d \<le> int (length xs)\<close> next_cur] \<open>1 \<le> a\<close>
    by simp
  show ?case
    using IH [of s a] IH [of L idx] s s' step(1,2) by (simp add: unfold)
qed

lemma segment_loop_eq_indices_loop:
  "segment_loop xs d is st = indices_loop xs d is st"
proof (induction "is" arbitrary: st)
  case Nil
  show ?case by simp
next
  case (Cons i rest)
  obtain c l k where st: "st = (c, l, k)" by (cases st) auto
  show ?case
    unfolding st by (simp add: Cons.IH Let_def split: sum.splits)
qed

lemma indices_result:
  assumes "0 \<le> d" "d < int (length xs)"
  shows "\<exists>start. trim_to_loudest_segment_indices xs d = Inr (start, start + d)
           \<and> 0 \<le> start \<and> start \<le> int (length xs) - d
           \<and> (\<forall>j. 0 \<le> j \<and> j \<le> int (length xs) - d \<longrightarrow>
                  window_energy xs d j \<le> window_energy xs d start)
           \<and> (\<forall>j. 0 \<le> j \<and> j < start \<longrightarrow>
                  window_energy xs d j < window_energy xs d start)"
proof -
  define n where "n = int (length xs)"
  define cur where "cur = sum_squares (py_slice xs 0 d)"
  have cur: "cur = window_energy xs d (1 - 1)" by (simp add: cur_def window_energy_def)
  have cur0: "cur = window_energy xs d 0" by (simp add: cur_def window_energy_def)
  have "\<exists>c L' idx'. indices_loop xs d [1 .. n - d] (cur, cur, 0) = Inr (c, L', idx')
           \<and> L' = window_energy xs d idx' \<and> 0 \<le> idx' \<and> idx' \<le> max (1 - 1) (n - d)
           \<and> (\<forall>j. 0 \<le> j \<and> j \<le> max (1 - 1) (n - d) \<longrightarrow> window_energy xs d j \<le> L')
           \<and> (\<forall>j. 0 \<le> j \<and> j < idx' \<longrightarrow> window_energy xs d j < L')"
  proof (rule indices_loop_invariant [OF assms(1) _ _ cur cur0])
    show "\<forall>j. 0 \<le> j \<and> j < 1 \<longrightarrow> window_energy xs d j \<le> cur"
    proof (intro allI impI)
      fix j :: int assume "0 \<le> j \<and> j < 1"
      then have "j = 0" by simp
      then show "window_energy xs d j \<le> cur" using cur0 by simp
    qed
  qed (simp_all add: n_def)
  then obtain c idx' where
    loop: "indices_loop xs d [1 .. n - d] (cur, cur, 0) = Inr (c, window_energy xs d idx', idx')"
    and idx: "0 \<le> idx'" "idx' \<le> max (1 - 1) (n - d)"
    and mx: "\<forall>j. 0 \<le> j \<and> j \<le> max (1 - 1) (n - d) \<longrightarrow>
                window_energy xs d j \<le> window_energy xs d idx'"
    and first: "\<forall>j. 0 \<le> j \<and> j < idx' \<longrightarrow> window_energy xs d j < window_energy xs d idx'"
    by blast
  have m: "max (1 - 1) (n - d) = n - d" using assms by (simp add: n_def)
  have "trim_to_loudest_segment_indices xs d = Inr (idx', idx' + d)"
    using assms loop
    by (simp add: trim_to_loudest_segment_indices_def Let_def n_def [symmetric] cur_def [symmetric])
  moreover have "idx' \<le> int (length xs) - d" using idx(2) m by (simp add: n_def)
  moreover have "\<forall>j. 0 \<le> j \<and> j \<le> int (length xs) - d \<longrightarrow>
                  window_energy xs d j \<le> window_energy xs d idx'"
    using mx m by (simp add: n_def)
  ultimately show ?thesis
    using idx(1) first by (intro exI [of _ idx'] conjI)
qed

subsection \<open>The degenerate case\<close>

text \<open>
  C3: for every input and every \<open>desired_samples\<close> that is at least the length of the
  input (the empty input included), \<^verbatim>\<open>trim_to_loudest_segment_indices\<close> returns exactly
  \<open>(0, length input)\<close>.
\<close>

theorem indices_whole_input:
  "desired_samples \<ge> int (length input_samples) \<Longrightarrow>
     trim_to_loudest_segment_indices input_samples desired_samples
       = Inr (0, int (length input_samples))"
  by (simp add: trim_to_loudest_segment_indices_def)

theorem indices_whole_input_witness:
  "(5::int) \<ge> int (length [1, 2, 3 :: real]) \<and>
     trim_to_loudest_segment_indices [1, 2, 3] 5 = Inr (0, 3) \<and>
     (0::int) \<ge> int (length ([] :: real list)) \<and>
     trim_to_loudest_segment_indices [] 0 = Inr (0, 0)"
  using indices_whole_input [of "[1, 2, 3]" 5] indices_whole_input [of "[]" 0]
  by simp

subsection \<open>The returned window is a loudest one\<close>

text \<open>
  C1, as amended: when every square, sum and difference of the locator is taken exactly
  (real arithmetic, no floating-point rounding), then for every sequence of real samples
  and every \<open>desired_samples\<close> with \<open>0 \<le> desired_samples < length input_samples\<close>,
  \<^verbatim>\<open>trim_to_loudest_segment_indices\<close> returns a pair \<open>(start, end)\<close> such that the sum of
  squares over
  \<^verbatim>\<open>input_samples[start:end]\<close> is at least the sum of squares over
  \<^verbatim>\<open>input_samples[j : j + desired_samples]\<close> for every \<open>j\<close> from 0 to
  \<open>length input_samples - desired_samples\<close>.
\<close>

theorem indices_window_is_loudest:
  assumes "0 \<le> desired_samples" "desired_samples < int (length input_samples)"
  shows "\<exists>start end.
           trim_to_loudest_segment_indices input_samples desired_samples = Inr (start, end)
           \<and> (\<forall>j. 0 \<le> j \<and> j \<le> int (length input_samples) - desired_samples \<longrightarrow>
                  sum_squares (py_slice input_samples j (j + desired_samples))
                    \<le> sum_squares (py_slice input_samples start end))"
  using indices_result [OF assms] unfolding window_energy_def by blast

theorem indices_window_is_loudest_witness:
  "(0::int) \<le> 2 \<and> (2::int) < int (length [0, 3, -4, 1, 2 :: real]) \<and>
   (\<exists>start end.
      trim_to_loudest_segment_indices [0, 3, -4, 1, 2] 2 = Inr (start, end)
      \<and> (\<forall>j. 0 \<le> j \<and> j \<le> int (length [0, 3, -4, 1, 2 :: real]) - 2 \<longrightarrow>
             sum_squares (py_slice [0, 3, -4, 1, 2] j (j + 2))
               \<le> sum_squares (py_slice [0, 3, -4, 1, 2] start end)))"
  using indices_window_is_loudest [of 2 "[0, 3, -4, 1, 2]"] by simp

subsection \<open>Ties go to the leftmost window\<close>

text \<open>
  C2, as amended: when every square, sum and difference of the locator is taken exactly
  (real arithmetic, no floating-point rounding), then for every input and every
  \<open>0 \<le> desired_samples < length input\<close>, the start index returned by
  \<^verbatim>\<open>trim_to_loudest_segment_indices\<close> is the smallest start index among
  the windows of maximal energy: the window at \<open>start\<close> has maximal energy, and every
  window with the same energy starts at \<open>start\<close> or later. For the input
  \<open>[1, 1, 1, 1]\<close> and \<open>desired_samples = 2\<close> the result is \<open>(0, 2)\<close>.
\<close>

theorem indices_leftmost_maximum:
  assumes "0 \<le> desired_samples" "desired_samples < int (length input_samples)"
  shows "(\<exists>start.
            trim_to_loudest_segment_indices input_samples desired_samples
              = Inr (start, start + desired_samples)
            \<and> 0 \<le> start \<and> start \<le> int (length input_samples) - desired_samples
            \<and> (\<forall>j. 0 \<le> j \<and> j \<le> int (length input_samples) - desired_samples \<longrightarrow>
                   window_energy input_samples desired_samples j
                     \<le> window_energy input_samples desired_samples start)
            \<and> (\<forall>j. 0 \<le> j \<and> j \<le> int (length input_samples) - desired_samples \<and>
                   window_energy input_samples desired_samples j
                     = window_energy input_samples desired_samples start \<longrightarrow> start \<le> j))
         \<and> trim_to_loudest_segment_indices [1, 1, 1, 1] 2 = Inr (0, 2)"
proof -
  obtain start where
    r: "trim_to_loudest_segment_indices input_samples desired_samples
          = Inr (start, start + desired_samples)"
    and b: "0 \<le> start" "start \<le> int (length input_samples) - desired_samples"
    and m: "\<forall>j. 0 \<le> j \<and> j \<le> int (length input_samples) - desired_samples \<longrightarrow>
                   window_energy input_samples desired_samples j
                     \<le> window_energy input_samples desired_samples start"
    and f: "\<forall>j. 0 \<le> j \<and> j < start \<longrightarrow>
                   window_energy input_samples desired_samples j
                     < window_energy input_samples desired_samples start"
    using indices_result [OF assms] by blast
  have l: "\<forall>j. 0 \<le> j \<and> j \<le> int (length input_samples) - desired_samples \<and>
                   window_energy input_samples desired_samples j
                     = window_energy input_samples desired_samples start \<longrightarrow> start \<le> j"
  proof (intro allI impI)
    fix j
    assume j: "0 \<le> j \<and> j \<le> int (length input_samples) - desired_samples \<and>
                   window_energy input_samples desired_samples j
                     = window_energy input_samples desired_samples start"
    show "start \<le> j"
    proof (rule ccontr)
      assume "\<not> start \<le> j"
      then have "j < start" by simp
      then have "window_energy input_samples desired_samples j
                     < window_energy input_samples desired_samples start"
        using f j by blast
      then show False using j by simp
    qed
  qed
  have e: "trim_to_loudest_segment_indices [1, 1, 1, 1] 2 = Inr (0, 2)"
    by (simp add: trim_to_loudest_segment_indices_def py_index_def py_slice_def slice_bound_def
        sum_squares_def upto_rec1)
  show ?thesis using r b m l e by blast
qed

theorem indices_leftmost_maximum_witness:
  "(0::int) \<le> 1 \<and> (1::int) < int (length [2, -2, 1 :: real]) \<and>
   trim_to_loudest_segment_indices [2, -2, 1] 1 = Inr (0, 1) \<and>
   (\<exists>start.
      trim_to_loudest_segment_indices [2, -2, 1] 1 = Inr (start, start + 1)
      \<and> 0 \<le> start \<and> start \<le> int (length [2, -2, 1 :: real]) - 1
      \<and> (\<forall>j. 0 \<le> j \<and> j \<le> int (length [2, -2, 1 :: real]) - 1 \<longrightarrow>
             window_energy [2, -2, 1] 1 j \<le> window_energy [2, -2, 1] 1 start)
      \<and> (\<forall>j. 0 \<le> j \<and> j \<le> int (length [2, -2, 1 :: real]) - 1 \<and>
             window_energy [2, -2, 1] 1 j = window_energy [2, -2, 1] 1 start
               \<longrightarrow> start \<le> j))"
proof -
  have e: "trim_to_loudest_segment_indices [2, -2, 1] 1 = Inr (0, 1)"
    by (simp add: trim_to_loudest_segment_indices_def py_index_def py_slice_def slice_bound_def
        sum_squares_def upto_rec1)
  show ?thesis
    using indices_leftmost_maximum [of 1 "[2, -2, 1]"] e by simp
qed

subsection \<open>The incremental sum against recomputation\<close>

text \<open>
  C4: the incremental implementation (start from the sum of squares of the window at 0;
  at each step subtract the square of the sample that leaves and add the square of the
  sample that enters) returns the same pair as the reference that recomputes the sum of
  squares of each window from scratch, for every input and every
  \<open>0 \<le> desired_samples < length input\<close>, in exact real arithmetic.
\<close>

theorem indices_equals_naive:
  assumes "0 \<le> desired_samples" "desired_samples < int (length input_samples)"
  shows "trim_to_loudest_segment_indices input_samples desired_samples
           = Inr (naive_loudest_segment input_samples desired_samples)"
proof -
  define n where "n = int (length input_samples)"
  define cur where "cur = sum_squares (py_slice input_samples 0 desired_samples)"
  have cur: "cur = window_energy input_samples desired_samples (1 - 1)"
    by (simp add: cur_def window_energy_def)
  obtain c where
    "indices_loop input_samples desired_samples [1 .. n - desired_samples] (cur, cur, 0)
       = Inr (c, naive_scan input_samples desired_samples [1 .. n - desired_samples] (cur, 0))"
    using indices_loop_naive [OF assms(1) _ _ cur, of "n - desired_samples" cur 0]
    by (auto simp add: n_def)
  then show ?thesis
    using assms
    by (simp add: trim_to_loudest_segment_indices_def naive_loudest_segment_def Let_def
        n_def [symmetric] cur_def [symmetric] split: prod.splits)
qed

theorem indices_equals_naive_witness:
  "(0::int) \<le> 2 \<and> (2::int) < int (length [0, 3, -4, 1, 2 :: real]) \<and>
   naive_loudest_segment [0, 3, -4, 1, 2] 2 = (1, 3) \<and>
   trim_to_loudest_segment_indices [0, 3, -4, 1, 2] 2 = Inr (1, 3)"
proof -
  have n: "naive_loudest_segment [0, 3, -4, 1, 2] 2 = (1, 3)"
    by (simp add: naive_loudest_segment_def py_slice_def slice_bound_def
        sum_squares_def upto_rec1)
  show ?thesis
    using indices_equals_naive [of 2 "[0, 3, -4, 1, 2]"] n by simp
qed

subsection \<open>No exception, and a valid range\<close>

text \<open>
  C5: with \<open>desired_samples \<ge> 0\<close>, \<^verbatim>\<open>trim_to_loudest_segment_indices\<close> raises nothing
  and returns a range with \<open>0 \<le> start \<le> end \<le> length input\<close>; both reads of the
  loop, \<^verbatim>\<open>input_samples[i - 1]\<close> and \<^verbatim>\<open>input_samples[i + desired_samples - 1]\<close>,
  are inside the sequence for every \<open>i\<close> from 1 to \<open>length input - desired_samples\<close>.
\<close>

theorem indices_never_raises:
  assumes "0 \<le> desired_samples"
  shows "(\<exists>start end.
            trim_to_loudest_segment_indices input_samples desired_samples = Inr (start, end)
            \<and> 0 \<le> start \<and> start \<le> end \<and> end \<le> int (length input_samples))
         \<and> (\<forall>i. 1 \<le> i \<and> i \<le> int (length input_samples) - desired_samples \<longrightarrow>
                0 \<le> i - 1 \<and> i - 1 < int (length input_samples)
                \<and> py_index input_samples (i - 1) = Inr (input_samples ! nat (i - 1))
                \<and> 0 \<le> i + desired_samples - 1
                \<and> i + desired_samples - 1 < int (length input_samples)
                \<and> py_index input_samples (i + desired_samples - 1)
                     = Inr (input_samples ! nat (i + desired_samples - 1)))"
proof -
  have ret: "\<exists>start end.
            trim_to_loudest_segment_indices input_samples desired_samples = Inr (start, end)
            \<and> 0 \<le> start \<and> start \<le> end \<and> end \<le> int (length input_samples)"
  proof (cases "desired_samples \<ge> int (length input_samples)")
    case True
    then show ?thesis by (simp add: trim_to_loudest_segment_indices_def)
  next
    case False
    then have lt: "desired_samples < int (length input_samples)" by simp
    obtain start where
      "trim_to_loudest_segment_indices input_samples desired_samples
          = Inr (start, start + desired_samples)"
      "0 \<le> start" "start \<le> int (length input_samples) - desired_samples"
      using indices_result [OF assms lt] by blast
    then show ?thesis using assms by (intro exI [of _ start] exI [of _ "start + desired_samples"]) simp
  qed
  have acc: "\<forall>i. 1 \<le> i \<and> i \<le> int (length input_samples) - desired_samples \<longrightarrow>
                0 \<le> i - 1 \<and> i - 1 < int (length input_samples)
                \<and> py_index input_samples (i - 1) = Inr (input_samples ! nat (i - 1))
                \<and> 0 \<le> i + desired_samples - 1
                \<and> i + desired_samples - 1 < int (length input_samples)
                \<and> py_index input_samples (i + desired_samples - 1)
                     = Inr (input_samples ! nat (i + desired_samples - 1))"
    using assms by (simp add: py_index_def)
  show ?thesis using ret acc by (rule conjI)
qed

theorem indices_never_raises_witness:
  "(0::int) \<le> 2 \<and>
   (\<exists>start end.
       trim_to_loudest_segment_indices [0, 3, -4, 1, 2] 2 = Inr (start, end)
       \<and> 0 \<le> start \<and> start \<le> end \<and> end \<le> int (length [0, 3, -4, 1, 2 :: real]))
   \<and> py_index [0, 3, -4, 1, 2 :: real] (3 - 1) = Inr ([0, 3, -4, 1, 2] ! nat (3 - 1))
   \<and> py_index [0, 3, -4, 1, 2 :: real] (3 + 2 - 1) = Inr ([0, 3, -4, 1, 2] ! nat (3 + 2 - 1))"
proof -
  note r = indices_never_raises [of 2 "[0, 3, -4, 1, 2]"]
  have h: "(0::int) \<le> 2" by simp
  have i: "(1::int) \<le> 3 \<and> 3 \<le> int (length [0, 3, -4, 1, 2 :: real]) - 2" by simp
  from r [OF h] have ret: "\<exists>start end.
       trim_to_loudest_segment_indices [0, 3, -4, 1, 2] 2 = Inr (start, end)
       \<and> 0 \<le> start \<and> start \<le> end \<and> end \<le> int (length [0, 3, -4, 1, 2 :: real])"
    by (rule conjunct1)
  from r [OF h] have "\<forall>i. 1 \<le> i \<and> i \<le> int (length [0, 3, -4, 1, 2 :: real]) - 2 \<longrightarrow>
           0 \<le> i - 1 \<and> i - 1 < int (length [0, 3, -4, 1, 2 :: real])
           \<and> py_index [0, 3, -4, 1, 2 :: real] (i - 1) = Inr ([0, 3, -4, 1, 2] ! nat (i - 1))
           \<and> 0 \<le> i + 2 - 1
           \<and> i + 2 - 1 < int (length [0, 3, -4, 1, 2 :: real])
           \<and> py_index [0, 3, -4, 1, 2 :: real] (i + 2 - 1)
                = Inr ([0, 3, -4, 1, 2] ! nat (i + 2 - 1))"
    by (rule conjunct2)
  then have "0 \<le> (3::int) - 1 \<and> (3::int) - 1 < int (length [0, 3, -4, 1, 2 :: real])
           \<and> py_index [0, 3, -4, 1, 2 :: real] (3 - 1) = Inr ([0, 3, -4, 1, 2] ! nat (3 - 1))
           \<and> 0 \<le> (3::int) + 2 - 1
           \<and> (3::int) + 2 - 1 < int (length [0, 3, -4, 1, 2 :: real])
           \<and> py_index [0, 3, -4, 1, 2 :: real] (3 + 2 - 1)
                = Inr ([0, 3, -4, 1, 2] ! nat (3 + 2 - 1))"
    using i by blast
  then show ?thesis using h ret by blast
qed

subsection \<open>The two locators\<close>

text \<open>
  C10: \<^verbatim>\<open>trim_to_loudest_segment\<close> and \<^verbatim>\<open>trim_to_loudest_segment_indices\<close> return the
  same result for every sequence of samples and every integer \<open>desired_samples\<close>
  (a pair, or the same exception when \<open>desired_samples\<close> is negative).
\<close>

theorem segment_equals_indices:
  "trim_to_loudest_segment input_samples desired_samples
     = trim_to_loudest_segment_indices input_samples desired_samples"
  by (simp add: trim_to_loudest_segment_def trim_to_loudest_segment_indices_def Let_def
      segment_loop_eq_indices_loop)

subsection \<open>Rounding in the running sum\<close>

text \<open>
  On doubles the running sum is not the energy of the current window: each update rounds,
  and what a subtraction has rounded away does not come back. The values of
  \<open>nearest_double\<close> below are the roundings that the two following runs go through.
\<close>

declare pairwise_sum.simps [simp del]

lemma pairwise_sum_short:
  "length xs < 8 \<Longrightarrow> pairwise_sum xs = foldl float_add (Finite 0) xs"
  by (subst pairwise_sum.simps) simp

lemma bitlen_values:
  "bitlen 1 = 1" "bitlen 100 = 7" "bitlen 196 = 8"
  "bitlen 1152921504606846976 = 61" "bitlen 1152921504606847076 = 61"
  "bitlen 1152921504606846876 = 60" "bitlen 1152921504606847044 = 61"
  "bitlen 1152921504606847172 = 61" "bitlen 1152921504606847232 = 61"
  "bitlen 9007199515875289 = 54" "bitlen 441352776277889161 = 59"
  "bitlen 441352776277889152 = 59" "bitlen 450359975793764440 = 59"
  "bitlen 441352776277889128 = 59" "bitlen 225179987896882225 = 58"
  "bitlen 225179987896882240 = 58" "bitlen 450359975793764480 = 59"
  by (simp_all add: bitlen_def compute_floorlog)

lemmas nearest_double_simps =
  nearest_double_def floor_log2_def round_half_even_def bitlen_values

lemma nearest_double_loud:
  "nearest_double 0 = Finite 0"
  "nearest_double 100 = Finite 100"
  "nearest_double 196 = Finite 196"
  "nearest_double 1152921504606846976 = Finite 1152921504606846976"
  "nearest_double 1152921504606847076 = Finite 1152921504606846976"
  "nearest_double 1152921504606846876 = Finite 1152921504606846848"
  "nearest_double 1152921504606847044 = Finite 1152921504606846976"
  "nearest_double 1152921504606847172 = Finite 1152921504606847232"
  by (simp_all add: nearest_double_simps)

lemma nearest_double_tie:
  "nearest_double 9007199515875289 = Finite 9007199515875288"
  "nearest_double 441352776277889161 = Finite 441352776277889152"
  "nearest_double 441352776277889152 = Finite 441352776277889152"
  "nearest_double 450359975793764440 = Finite 450359975793764416"
  "nearest_double 441352776277889128 = Finite 441352776277889152"
  "nearest_double 225179987896882225 = Finite 225179987896882240"
  "nearest_double 225179987896882240 = Finite 225179987896882240"
  "nearest_double 450359975793764480 = Finite 450359975793764480"
  by (simp_all add: nearest_double_simps)

text \<open>
  C1 as it is stated, for the program on floats, fails on the list \<open>[10.0, 2\<^sup>3\<^sup>0, 14.0]\<close>
  with \<open>desired_samples = 2\<close>. The first sum \<open>100 + 2\<^sup>6\<^sup>0\<close> is rounded to \<open>2\<^sup>6\<^sup>0\<close>;
  the update gives \<open>2\<^sup>6\<^sup>0 - 100\<close>, rounded to \<open>2\<^sup>6\<^sup>0 - 128\<close>, and then
  \<open>2\<^sup>6\<^sup>0 - 128 + 196\<close>, rounded to \<open>2\<^sup>6\<^sup>0\<close>, which is not greater. The program
  returns \<open>(0, 2)\<close>, whose energy \<open>2\<^sup>6\<^sup>0 + 100\<close> is below the energy
  \<open>2\<^sup>6\<^sup>0 + 196\<close> of the window at 1; the window at 1 is also the louder one when both
  energies are recomputed in binary64.
\<close>

theorem float64_window_not_loudest:
  "trim_to_loudest_segment_indices_float64 [Finite 10, Finite 1073741824, Finite 14] 2
     = Inr (0, 2)
   \<and> sum_squares (py_slice [10, 1073741824, 14] 0 2)
       < sum_squares (py_slice [10, 1073741824, 14] 1 (1 + 2))
   \<and> float_gt (np_sum (map float_square (py_slice [Finite 10, Finite 1073741824, Finite 14] 1 (1 + 2))))
       (np_sum (map float_square (py_slice [Finite 10, Finite 1073741824, Finite 14] 0 2)))"
proof -
  have run: "trim_to_loudest_segment_indices_float64 [Finite 10, Finite 1073741824, Finite 14] 2
               = Inr (0, 2)"
    by (simp add: trim_to_loudest_segment_indices_float64_def np_sum_def pairwise_sum_short
        float_sub_def py_index_def py_slice_def slice_bound_def upto_rec1 Let_def
        nearest_double_loud)
  have exact: "sum_squares (py_slice [10, 1073741824, 14] 0 2)
                 < sum_squares (py_slice [10, 1073741824, 14] 1 (1 + 2))"
    by (simp add: sum_squares_def py_slice_def slice_bound_def)
  have rounded: "float_gt
       (np_sum (map float_square (py_slice [Finite 10, Finite 1073741824, Finite 14] 1 (1 + 2))))
       (np_sum (map float_square (py_slice [Finite 10, Finite 1073741824, Finite 14] 0 2)))"
    by (simp add: np_sum_def pairwise_sum_short py_slice_def slice_bound_def
        nearest_double_loud)
  show ?thesis using run exact rounded by simp
qed

text \<open>
  C2 as it is stated, for the program on floats, fails on the list
  \<open>[94906267.0, 664343869.0, 0.0, 474531335.0, 474531335.0]\<close> with
  \<open>desired_samples = 2\<close>: the windows at 0 and at 3 have the same energy, which is the
  maximum, but the running sum reaches the window at 3 above its first value and the
  program returns \<open>(3, 5)\<close>.
\<close>

theorem float64_tie_not_leftmost:
  "trim_to_loudest_segment_indices_float64
     [Finite 94906267, Finite 664343869, Finite 0, Finite 474531335, Finite 474531335] 2
     = Inr (3, 5)
   \<and> window_energy [94906267, 664343869, 0, 474531335, 474531335] 2 0
       = window_energy [94906267, 664343869, 0, 474531335, 474531335] 2 3
   \<and> window_energy [94906267, 664343869, 0, 474531335, 474531335] 2 1
       < window_energy [94906267, 664343869, 0, 474531335, 474531335] 2 3
   \<and> window_energy [94906267, 664343869, 0, 474531335, 474531335] 2 2
       < window_energy [94906267, 664343869, 0, 474531335, 474531335] 2 3"
proof -
  have run: "trim_to_loudest_segment_indices_float64
     [Finite 94906267, Finite 664343869, Finite 0, Finite 474531335, Finite 474531335] 2
     = Inr (3, 5)"
    by (simp add: trim_to_loudest_segment_indices_float64_def np_sum_def pairwise_sum_short
        float_sub_def py_index_def py_slice_def slice_bound_def upto_rec1 Let_def
        nearest_double_loud(1) nearest_double_tie)
  have exact:
    "window_energy [94906267, 664343869, 0, 474531335, 474531335] 2 0
       = window_energy [94906267, 664343869, 0, 474531335, 474531335] 2 3"
    "window_energy [94906267, 664343869, 0, 474531335, 474531335] 2 1
       < window_energy [94906267, 664343869, 0, 474531335, 474531335] 2 3"
    "window_energy [94906267, 664343869, 0, 474531335, 474531335] 2 2
       < window_energy [94906267, 664343869, 0, 474531335, 474531335] 2 3"
    by (simp_all add: window_energy_def sum_squares_def py_slice_def slice_bound_def)
  show ?thesis using run exact by simp
qed

subsection \<open>A negative length\<close>

lemma indices_loop_raises:
  "int (length xs) + 1 \<in> set is \<Longrightarrow> \<exists>e. indices_loop xs d is st = Inl e"
proof (induction "is" arbitrary: st)
  case Nil
  then show ?case by simp
next
  case (Cons i rest)
  obtain c l k where st: "st = (c, l, k)" by (cases st) auto
  show ?case
  proof (cases "i = int (length xs) + 1")
    case True
    then have "py_index xs (i - 1) = Inl IndexError" by (simp add: py_index_def)
    then show ?thesis by (simp add: st)
  next
    case False
    then have "int (length xs) + 1 \<in> set rest" using Cons.prems by simp
    then have "\<exists>e. indices_loop xs d rest st' = Inl e" for st'
      by (rule Cons.IH)
    then show ?thesis
      unfolding st by (auto simp add: Let_def split: sum.splits)
  qed
qed

lemma indices_negative_raises:
  assumes "d < 0"
  shows "\<exists>e. trim_to_loudest_segment_indices xs d = Inl e"
proof -
  have "int (length xs) + 1 \<in> set [1 .. int (length xs) - d]" using assms by simp
  then obtain e where
    "indices_loop xs d [1 .. int (length xs) - d]
       (sum_squares (py_slice xs 0 d), sum_squares (py_slice xs 0 d), 0) = Inl e"
    using indices_loop_raises by blast
  then show ?thesis
    using assms by (simp add: trim_to_loudest_segment_indices_def Let_def)
qed

lemma indices_range:
  assumes "trim_to_loudest_segment_indices xs d = Inr (s, e)"
  shows "0 \<le> s \<and> s \<le> e \<and> e \<le> int (length xs)"
proof -
  have d: "0 \<le> d"
  proof (rule ccontr)
    assume "\<not> 0 \<le> d"
    then have "d < 0" by simp
    then show False using indices_negative_raises [of d xs] assms by auto
  qed
  show ?thesis
  proof (cases "d \<ge> int (length xs)")
    case True
    then show ?thesis using assms by (simp add: trim_to_loudest_segment_indices_def)
  next
    case False
    then have "d < int (length xs)" by simp
    from indices_result [OF d this] show ?thesis using assms d by auto
  qed
qed

lemma py_slice_range:
  assumes "0 \<le> s" "s \<le> e" "e \<le> int (length xs)"
  shows "py_slice xs s e = take (nat (e - s)) (drop (nat s) xs)"
  using py_slice_window [of s "e - s" xs] assms by simp

lemma py_slice_frames:
  assumes "0 \<le> s" "s \<le> e" "e \<le> int (length xs)"
  shows "int (length (py_slice xs s e)) = e - s"
    and "s \<le> f \<Longrightarrow> f < e \<Longrightarrow> py_slice xs s e ! nat (f - s) = xs ! nat f"
proof -
  show "int (length (py_slice xs s e)) = e - s"
    using assms by (simp add: py_slice_range)
  assume f: "s \<le> f" "f < e"
  then have "nat (f - s) < nat (e - s)" "nat s + nat (f - s) = nat f"
    using assms by auto
  then show "py_slice xs s e ! nat (f - s) = xs ! nat f"
    using assms f by (simp add: py_slice_range)
qed

section \<open>Properties of the window length\<close>

lemma round_half_even_lower: "p div q \<le> round_half_even p q"
  by (simp add: round_half_even_def)

lemma round_half_even_upper:
  assumes "0 < q"
  shows "round_half_even p q \<le> (2 * p + q) div (2 * q)"
proof -
  define f where "f = p div q"
  define r where "r = p mod q"
  have p: "p = q * f + r" by (simp add: f_def r_def)
  have r: "0 \<le> r" "r < q" using assms by (simp_all add: r_def)
  have "2 * p + q = (2 * q) * f + (2 * r + q)" by (simp add: p algebra_simps)
  then have split: "(2 * p + q) div (2 * q) = f + (2 * r + q) div (2 * q)"
    using assms by (metis div_mult_self2 add.commute mult.commute not_less_iff_gr_or_eq
        zero_less_mult_iff zero_less_numeral)
  have nonneg: "0 \<le> (2 * r + q) div (2 * q)"
    using r assms by (simp add: pos_imp_zdiv_nonneg_iff)
  show ?thesis
  proof (cases "2 * r < q")
    case True
    then show ?thesis using nonneg split by (simp add: round_half_even_def f_def r_def)
  next
    case False
    then have "2 * q \<le> 2 * r + q" by simp
    then have "0 < (2 * r + q) div (2 * q)"
      using assms pos_imp_zdiv_pos_iff [of "2 * q" "2 * r + q"] by simp
    then have "1 \<le> (2 * r + q) div (2 * q)" by simp
    then have "f + 1 \<le> (2 * p + q) div (2 * q)" using split by simp
    moreover have "round_half_even p q \<le> f + 1"
      by (simp add: round_half_even_def f_def)
    ultimately show ?thesis by simp
  qed
qed

lemma bitlen_1000: "bitlen 1000 = 10"
  by (simp add: bitlen_def compute_floorlog)

lemma floor_log2_thousand_le:
  assumes "0 < a" "a < 1000 * 2 ^ 44"
  shows "floor_log2 a 1000 \<le> 43"
proof -
  have "a < 2 ^ 54" using assms(2) by simp
  moreover have "2 ^ nat (bitlen a - 1) \<le> a" using bitlen_bounds [OF assms(1)] by simp
  ultimately have lt: "(2::int) ^ nat (bitlen a - 1) < 2 ^ 54" by linarith
  have "\<not> 54 \<le> nat (bitlen a - 1)"
  proof
    assume "54 \<le> nat (bitlen a - 1)"
    then have "(2::int) ^ 54 \<le> 2 ^ nat (bitlen a - 1)" by (rule power_increasing) simp
    then show False using lt by linarith
  qed
  then have "nat (bitlen a - 1) < 54" by simp
  then have d: "bitlen a - bitlen 1000 \<le> 44" by (simp add: bitlen_1000)
  show ?thesis
  proof (cases "bitlen a - bitlen 1000 = 44")
    case True
    then show ?thesis using assms(2) by (simp add: floor_log2_def)
  next
    case False
    then have "bitlen a - bitlen 1000 \<le> 43" using d by simp
    then show ?thesis by (simp add: floor_log2_def Let_def)
  qed
qed

lemma binary64_thousand:
  assumes "0 < n" "n < 1000 * 2 ^ 44"
  shows "\<exists>v. binary64 n 1000 = Inr v \<and> py_int v = n div 1000"
proof -
  define s where "s = nat (min (52 - floor_log2 n 1000) 1074)"
  have shift: "9 \<le> min (52 - floor_log2 n 1000) 1074"
    using floor_log2_thousand_le [OF assms] by simp
  then have s9: "9 \<le> s" by (simp add: s_def)
  define m where "m = round_half_even (n * 2 ^ s) 1000"
  have val: "binary64 n 1000 = Inr (real_of_int m / 2 ^ s)"
    using shift by (simp add: binary64_def Let_def s_def m_def)
  define k where "k = n div 1000"
  define r where "r = n mod 1000"
  have n: "n = 1000 * k + r" by (simp add: k_def r_def)
  have r: "0 \<le> r" "r \<le> 999" by (simp_all add: r_def) 
  have k0: "0 \<le> k" using assms(1) by (simp add: k_def)
  have pow: "(512::int) \<le> 2 ^ s"
    using power_increasing [of 9 s "2::int"] s9 by simp
  have pos: "(0::int) < 2 ^ s" by simp
  have lower: "k * 2 ^ s \<le> m"
  proof -
    have "n * 2 ^ s = 1000 * (k * 2 ^ s) + r * 2 ^ s" by (simp add: n algebra_simps)
    moreover have "0 \<le> r * 2 ^ s" using r by simp
    ultimately have "1000 * (k * 2 ^ s) \<le> n * 2 ^ s" by linarith
    then have "k * 2 ^ s \<le> (n * 2 ^ s) div 1000"
      by (simp add: zdiv_mono1 [of "1000 * (k * 2 ^ s)" "n * 2 ^ s" 1000, simplified])
    then show ?thesis
      using round_half_even_lower [of "n * 2 ^ s" 1000] by (simp add: m_def)
  qed
  have upper: "m < (k + 1) * 2 ^ s"
  proof -
    have "r * 2 ^ s \<le> 999 * 2 ^ s" using r by simp
    then have "n * 2 ^ s \<le> 1000 * ((k + 1) * 2 ^ s) - 2 ^ s"
      by (simp add: n algebra_simps)
    then have "2 * (n * 2 ^ s) + 1000 \<le> 2000 * ((k + 1) * 2 ^ s) - 24"
      using pow by linarith
    then have "(2 * (n * 2 ^ s) + 1000) div 2000 \<le> (2000 * ((k + 1) * 2 ^ s) - 24) div 2000"
      by (rule zdiv_mono1) simp
    also have "(2000 * ((k + 1) * 2 ^ s) - 24) div 2000 = (k + 1) * 2 ^ s - 1"
    proof -
      have "2000 * ((k + 1) * 2 ^ s) - 24 = 2000 * ((k + 1) * 2 ^ s - 1) + 1976" by simp
      then show ?thesis by simp
    qed
    finally have "(2 * (n * 2 ^ s) + 1000) div 2000 \<le> (k + 1) * 2 ^ s - 1" .
    then show ?thesis
      using round_half_even_upper [of 1000 "n * 2 ^ s"] by (simp add: m_def)
  qed
  have m0: "0 \<le> m" using lower k0 pos by (meson mult_nonneg_nonneg less_imp_le order_trans)
  have "m div 2 ^ s = k"
  proof -
    have "(k * 2 ^ s) div 2 ^ s \<le> m div 2 ^ s" using lower pos by (rule zdiv_mono1)
    then have "k \<le> m div 2 ^ s" by simp
    moreover have "m div 2 ^ s < k + 1"
    proof -
      have "m = (m div 2 ^ s) * 2 ^ s + m mod 2 ^ s"
        using div_mult_mod_eq [of m "2 ^ s"] by simp
      moreover have "0 \<le> m mod 2 ^ s" using pos by simp
      ultimately have "(m div 2 ^ s) * 2 ^ s < (k + 1) * 2 ^ s" using upper by linarith
      then show ?thesis using pos by (simp add: mult_less_cancel_right)
    qed
    ultimately show ?thesis by simp
  qed
  moreover have "py_int (real_of_int m / 2 ^ s) = m div 2 ^ s"
  proof -
    have "0 \<le> real_of_int m / 2 ^ s" using m0 by simp
    moreover have "\<lfloor>real_of_int m / 2 ^ s\<rfloor> = m div 2 ^ s"
      using floor_divide_of_int_eq [of m "2 ^ s", where ?'a = real] by simp
    ultimately show ?thesis by (simp add: py_int_def)
  qed
  ultimately show ?thesis using val by (simp add: k_def)
qed

text \<open>
  C8, as amended: for every \<open>desired_length_ms \<ge> 0\<close> and \<open>sample_rate > 0\<close> whose
  product is below \<open>1000 \<sqdot> 2\<^sup>4\<^sup>4\<close>, \<^verbatim>\<open>trim_file\<close> computes
  \<open>desired_samples = \<lfloor>desired_length_ms \<sqdot> sample_rate / 1000\<rfloor>\<close>. Beyond that bound the
  double nearest to the quotient can be the next integer, which \<^verbatim>\<open>int()\<close> keeps.
\<close>

theorem desired_samples_floor:
  assumes "0 \<le> desired_length_ms" "0 < sample_rate"
    and "desired_length_ms * sample_rate < 1000 * 2 ^ 44"
  shows "desired_samples_of desired_length_ms sample_rate
           = Inr \<lfloor>real_of_int (desired_length_ms * sample_rate) / 1000\<rfloor>"
proof -
  define n where "n = desired_length_ms * sample_rate"
  have fl: "\<lfloor>real_of_int n / 1000\<rfloor> = n div 1000"
    using floor_divide_of_int_eq [of n 1000, where ?'a = real] by simp
  have n0: "0 \<le> n" using assms(1,2) by (simp add: n_def)
  show ?thesis
  proof (cases "n = 0")
    case True
    then show ?thesis
      by (simp add: desired_samples_of_def py_truediv_def py_int_def n_def [symmetric])
  next
    case False
    then have pos: "0 < n" using n0 by simp
    have lt: "n < 1000 * 2 ^ 44" using assms(3) by (simp add: n_def)
    obtain v where "binary64 n 1000 = Inr v" "py_int v = n div 1000"
      using binary64_thousand [OF pos lt] by blast
    then show ?thesis
      using pos fl by (simp add: desired_samples_of_def py_truediv_def n_def [symmetric])
  qed
qed

theorem desired_samples_floor_witness:
  "(0::int) \<le> 1000 \<and> (0::int) < 44100 \<and> (1000::int) * 44100 < 1000 * 2 ^ 44 \<and>
   desired_samples_of 1000 44100 = Inr 44100"
  using desired_samples_floor [of 1000 44100] by simp

text \<open>
  The claim as it is stated, for every product, fails at \<open>desired_length_ms =
  17592186044416999\<close> and \<open>sample_rate = 1\<close>: the quotient 17592186044416.999 is rounded
  to the double 17592186044417.
\<close>

theorem desired_samples_floor_counterexample:
  "desired_samples_of 17592186044416999 1
     \<noteq> Inr \<lfloor>real_of_int (17592186044416999 * 1) / 1000\<rfloor>"
proof -
  have "desired_samples_of 17592186044416999 1 = Inr 17592186044417"
    by (simp add: desired_samples_of_def py_truediv_def binary64_def floor_log2_def
        round_half_even_def py_int_def bitlen_def compute_floorlog)
  moreover have "\<lfloor>real_of_int (17592186044416999 * 1) / 1000\<rfloor> = 17592186044416"
    using floor_divide_of_int_eq [of "17592186044416999" 1000, where ?'a = real] by simp
  ultimately show ?thesis by simp
qed

section \<open>Properties of trim_file\<close>

text \<open>
  C6: in \<^verbatim>\<open>trim_file\<close>, when the arithmetic mean of the absolute values of the mono
  reduction over the located window \<open>[start, end)\<close> is strictly below \<open>min_volume\<close>,
  the function reports the skip and returns normally without calling \<^verbatim>\<open>sf.write\<close>.
  The gate is the mean absolute amplitude and not the sum of squares that the locator
  ranks by: for the one sample \<open>1/10\<close> the mean is \<open>1/10\<close> and the energy \<open>1/100\<close>, and
  with \<open>min_volume = 5/100\<close> the file is written.
\<close>

theorem trim_file_skips_quiet:
  assumes "reader input_filename = Some (wav_samples, sample_rate)"
    and "desired_samples_of desired_length_ms sample_rate = Inr desired_samples"
    and "trim_to_loudest_segment_indices (map frame_mean wav_samples) desired_samples
           = Inr (start_idx, end_idx)"
    and "window = py_slice (map frame_mean wav_samples) start_idx end_idx"
    and "window \<noteq> []"
    and "sum_list (map abs window) / real (length window) < min_volume"
  shows "trim_file reader writer_ok input_filename output_filename desired_length_ms
           min_volume
           = Inr [Print (Skipped input_filename
                           (Some (sum_list (map abs window) / real (length window))))]
         \<and> mean_abs [1 / 10] = Some (1 / 10) \<and> sum_squares [1 / 10] = 1 / 100
         \<and> trim_file (\<lambda>f. Some ([[1 / 10]], 1000)) (\<lambda>p b r. True) ''in.wav'' ''out.wav'' 1
             (5 / 100)
             = Inr [Write ''out.wav'' [[1 / 10]] 1000, Print (SavedTo ''out.wav'')]"
proof -
  have skip: "trim_file reader writer_ok input_filename output_filename desired_length_ms
           min_volume
           = Inr [Print (Skipped input_filename
                           (Some (sum_list (map abs window) / real (length window))))]"
    using assms by (simp add: trim_file_def Let_def mean_abs_def float_less_def)
  have d: "desired_samples_of 1 1000 = Inr 1"
    by (simp add: desired_samples_of_def py_truediv_def binary64_def floor_log2_def
        round_half_even_def py_int_def bitlen_def compute_floorlog)
  have w: "trim_file (\<lambda>f. Some ([[1 / 10]], 1000)) (\<lambda>p b r. True) ''in.wav'' ''out.wav'' 1
             (5 / 100)
             = Inr [Write ''out.wav'' [[1 / 10]] 1000, Print (SavedTo ''out.wav'')]"
    by (simp add: trim_file_def d trim_to_loudest_segment_indices_def frame_mean_def
        py_slice_def slice_bound_def mean_abs_def float_less_def)
  have m: "mean_abs [1 / 10] = Some (1 / 10)" "sum_squares [1 / 10] = 1 / 100"
    by (simp_all add: mean_abs_def sum_squares_def)
  show ?thesis using skip w m by simp
qed

theorem trim_file_skips_quiet_witness:
  "trim_to_loudest_segment_indices
     (map frame_mean [[0, 0], [1 / 2, - 1 / 4], [1 / 2, 1 / 4], [0, 1 / 8]]) 2 = Inr (1, 3)
   \<and> py_slice (map frame_mean [[0, 0], [1 / 2, - 1 / 4], [1 / 2, 1 / 4], [0, 1 / 8]]) 1 3
       = [1 / 8, 3 / 8]
   \<and> trim_file (\<lambda>f. Some ([[0, 0], [1 / 2, - 1 / 4], [1 / 2, 1 / 4], [0, 1 / 8]], 2))
       (\<lambda>p b r. True) ''a.wav'' ''out/a.wav'' 1000 (1 / 2)
       = Inr [Print (Skipped ''a.wav'' (Some (1 / 4)))]"
proof -
  define wav :: "real list list" where
    "wav = [[0, 0], [1 / 2, - 1 / 4], [1 / 2, 1 / 4], [0, 1 / 8]]"
  have h2: "desired_samples_of 1000 2 = Inr 2"
    by (simp add: desired_samples_of_def py_truediv_def binary64_def floor_log2_def
        round_half_even_def py_int_def bitlen_def compute_floorlog)
  have mono: "map frame_mean wav = [0, 1 / 8, 3 / 8, 1 / 16]"
    by (simp add: wav_def frame_mean_def)
  have h3: "trim_to_loudest_segment_indices (map frame_mean wav) 2 = Inr (1, 3)"
    unfolding mono
    by (simp add: trim_to_loudest_segment_indices_def py_index_def py_slice_def
        slice_bound_def sum_squares_def upto_rec1)
  have h4: "[1 / 8, 3 / 8] = py_slice (map frame_mean wav) 1 3"
    unfolding mono by (simp add: py_slice_def slice_bound_def)
  have h5: "[1 / 8, 3 / 8 :: real] \<noteq> []" by simp
  have h6: "sum_list (map abs [1 / 8, 3 / 8 :: real]) / real (length [1 / 8, 3 / 8 :: real])
              < 1 / 2" by simp
  from trim_file_skips_quiet [where reader = "\<lambda>f. Some (wav, 2)" and input_filename = "''a.wav''"
      and writer_ok = "\<lambda>p b r. True" and output_filename = "''out/a.wav''",
      OF refl h2 h3 h4 h5 h6]
  have "trim_file (\<lambda>f. Some (wav, 2)) (\<lambda>p b r. True) ''a.wav'' ''out/a.wav'' 1000 (1 / 2)
       = Inr [Print (Skipped ''a.wav'' (Some (1 / 4)))]" by simp
  then show ?thesis using h3 h4 by (simp add: wav_def)
qed

text \<open>
  C7: whenever \<^verbatim>\<open>trim_file\<close> calls \<^verbatim>\<open>sf.write\<close>, the buffer it passes is the decoded
  multi-channel buffer restricted to the frames \<open>[start, end)\<close> of the located window:
  frame \<open>f - start\<close> of the output is frame \<open>f\<close> of the input, with the same channel
  count and the same value in every channel, and the sample rate and the output path are
  the ones given.
\<close>

theorem trim_file_writes_slice:
  assumes "trim_file reader writer_ok input_filename output_filename desired_length_ms
             min_volume = Inr evs"
    and "Write path buffer rate \<in> set evs"
  shows "\<exists>wav_samples desired_samples start_idx end_idx.
           reader input_filename = Some (wav_samples, rate)
           \<and> path = output_filename
           \<and> desired_samples_of desired_length_ms rate = Inr desired_samples
           \<and> trim_to_loudest_segment_indices (map frame_mean wav_samples) desired_samples
               = Inr (start_idx, end_idx)
           \<and> 0 \<le> start_idx \<and> start_idx \<le> end_idx \<and> end_idx \<le> int (length wav_samples)
           \<and> int (length buffer) = end_idx - start_idx
           \<and> (\<forall>f. start_idx \<le> f \<and> f < end_idx \<longrightarrow>
                  buffer ! nat (f - start_idx) = wav_samples ! nat f
                  \<and> length (buffer ! nat (f - start_idx)) = length (wav_samples ! nat f)
                  \<and> (\<forall>c. buffer ! nat (f - start_idx) ! c = wav_samples ! nat f ! c))"
proof -
  obtain wav_samples sample_rate where
    rd: "reader input_filename = Some (wav_samples, sample_rate)"
    using assms by (cases "reader input_filename") (auto simp add: trim_file_def)
  obtain desired_samples where
    ds: "desired_samples_of desired_length_ms sample_rate = Inr desired_samples"
    using assms rd
    by (cases "desired_samples_of desired_length_ms sample_rate")
       (auto simp add: trim_file_def)
  obtain start_idx end_idx where
    loc: "trim_to_loudest_segment_indices (map frame_mean wav_samples) desired_samples
            = Inr (start_idx, end_idx)"
    using assms rd ds
    by (cases "trim_to_loudest_segment_indices (map frame_mean wav_samples) desired_samples")
       (auto simp add: trim_file_def)
  have w: "path = output_filename \<and> buffer = py_slice wav_samples start_idx end_idx
             \<and> rate = sample_rate"
    using assms rd ds loc
    by (auto simp add: trim_file_def Let_def split: if_splits)
  have rng: "0 \<le> start_idx \<and> start_idx \<le> end_idx \<and> end_idx \<le> int (length wav_samples)"
    using indices_range [OF loc] by simp
  then have r: "0 \<le> start_idx" "start_idx \<le> end_idx" "end_idx \<le> int (length wav_samples)"
    by simp_all
  have len: "int (length buffer) = end_idx - start_idx"
    using py_slice_frames(1) [OF r] w by simp
  have frames: "\<forall>f. start_idx \<le> f \<and> f < end_idx \<longrightarrow>
                  buffer ! nat (f - start_idx) = wav_samples ! nat f
                  \<and> length (buffer ! nat (f - start_idx)) = length (wav_samples ! nat f)
                  \<and> (\<forall>c. buffer ! nat (f - start_idx) ! c = wav_samples ! nat f ! c)"
    using py_slice_frames(2) [OF r] w by simp
  show ?thesis
    using rd ds loc w rng len frames by blast
qed

theorem trim_file_writes_slice_witness:
  "trim_file (\<lambda>f. Some ([[0, 0], [1 / 2, - 1 / 4], [1 / 2, 1 / 4], [0, 1 / 8]], 2))
     (\<lambda>p b r. True) ''a.wav'' ''out/a.wav'' 1000 (4 / 1000)
     = Inr [Write ''out/a.wav'' [[1 / 2, - 1 / 4], [1 / 2, 1 / 4]] 2,
            Print (SavedTo ''out/a.wav'')]
   \<and> (\<exists>wav_samples desired_samples start_idx end_idx.
         Some ([[0, 0], [1 / 2, - 1 / 4], [1 / 2, 1 / 4], [0, 1 / 8]], 2 :: int)
           = Some (wav_samples, 2)
         \<and> desired_samples_of 1000 2 = Inr desired_samples
         \<and> trim_to_loudest_segment_indices (map frame_mean wav_samples) desired_samples
             = Inr (start_idx, end_idx)
         \<and> 0 \<le> start_idx \<and> start_idx \<le> end_idx \<and> end_idx \<le> int (length wav_samples)
         \<and> int (length [[1 / 2, - 1 / 4], [1 / 2, 1 / 4 :: real]]) = end_idx - start_idx
         \<and> (\<forall>f. start_idx \<le> f \<and> f < end_idx \<longrightarrow>
                [[1 / 2, - 1 / 4], [1 / 2, 1 / 4]] ! nat (f - start_idx) = wav_samples ! nat f))"
proof -
  define wav :: "real list list" where
    "wav = [[0, 0], [1 / 2, - 1 / 4], [1 / 2, 1 / 4], [0, 1 / 8]]"
  have h2: "desired_samples_of 1000 2 = Inr 2"
    by (simp add: desired_samples_of_def py_truediv_def binary64_def floor_log2_def
        round_half_even_def py_int_def bitlen_def compute_floorlog)
  have mono: "map frame_mean wav = [0, 1 / 8, 3 / 8, 1 / 16]"
    by (simp add: wav_def frame_mean_def)
  have h3: "trim_to_loudest_segment_indices [0, 1 / 8, 3 / 8, 1 / 16] 2 = Inr (1, 3)"
    by (simp add: trim_to_loudest_segment_indices_def py_index_def py_slice_def
        slice_bound_def sum_squares_def upto_rec1)
  have run: "trim_file (\<lambda>f. Some (wav, 2)) (\<lambda>p b r. True) ''a.wav'' ''out/a.wav'' 1000
               (4 / 1000)
             = Inr [Write ''out/a.wav'' [[1 / 2, - 1 / 4], [1 / 2, 1 / 4]] 2,
                    Print (SavedTo ''out/a.wav'')]"
    by (simp add: trim_file_def h2 mono h3 mean_abs_def float_less_def)
       (simp add: py_slice_def slice_bound_def wav_def)
  have ev: "Write ''out/a.wav'' [[1 / 2, - 1 / 4], [1 / 2, 1 / 4]] 2
              \<in> set [Write ''out/a.wav'' [[1 / 2, - 1 / 4], [1 / 2, 1 / 4]] 2,
                      Print (SavedTo ''out/a.wav'')]" by simp
  from trim_file_writes_slice [OF run ev]
  obtain wav_samples desired_samples start_idx end_idx where
    "Some (wav, 2 :: int) = Some (wav_samples, 2)"
    "desired_samples_of 1000 2 = Inr desired_samples"
    "trim_to_loudest_segment_indices (map frame_mean wav_samples) desired_samples
       = Inr (start_idx, end_idx)"
    "0 \<le> start_idx" "start_idx \<le> end_idx" "end_idx \<le> int (length wav_samples)"
    "int (length [[1 / 2, - 1 / 4], [1 / 2, 1 / 4 :: real]]) = end_idx - start_idx"
    "\<forall>f. start_idx \<le> f \<and> f < end_idx \<longrightarrow>
       [[1 / 2, - 1 / 4], [1 / 2, 1 / 4]] ! nat (f - start_idx) = wav_samples ! nat f"
    by blast
  then show ?thesis using run unfolding wav_def by blast
qed

section \<open>Properties of the command line\<close>

text \<open>
  C9 asks for a nonzero exit status when fewer than two arguments are given. With no
  argument \<^verbatim>\<open>main\<close> prints the usage line and returns \<open>-1\<close>, as its docstring says, but
  the script drops that value and the process ends with status 0.
\<close>

theorem missing_arguments_exit_status:
  "main E [''extract_loudest_section_python.py''] = Inr ([Print Usage], - 1)
   \<and> exit_status E [''extract_loudest_section_python.py''] = 0"
  by (simp add: main_def exit_status_def)

end
